theory Spec2Isabelle
  imports Main "HOL-Library.Word"
begin

section \<open>The logger library (logger.c, logger.h)\<close>

text \<open>
  A shallow embedding of the C library: the three process-wide globals
  (\<open>logHandlers\<close>, \<open>logOutput\<close>, \<open>initialized\<close>) are the fields of a state record
  that every operation takes and returns; a pointer that may be \<open>NULL\<close> is an
  \<open>option\<close>; a C string is the list of its characters before the terminating
  byte; an access that C leaves undefined (a null dereference, an index outside
  an array) is an error value, so that it is a branch of the model.
\<close>

subsection \<open>Constants of logger.h and logger.c\<close>

abbreviation (input) NUM_LOG_CATS :: nat where "NUM_LOG_CATS \<equiv> 5"
abbreviation (input) MAX_CHARS_IN_LOG_CAT :: nat where "MAX_CHARS_IN_LOG_CAT \<equiv> 8"
abbreviation (input) MAX_CHARS_IN_MSG :: nat where "MAX_CHARS_IN_MSG \<equiv> 60"
abbreviation (input) MAX_CHARS_IN_DATE :: nat where "MAX_CHARS_IN_DATE \<equiv> 30"
abbreviation (input) MAX_CHARS_IN_FINAL_MSG :: nat where
  "MAX_CHARS_IN_FINAL_MSG \<equiv> MAX_CHARS_IN_MSG + MAX_CHARS_IN_DATE + MAX_CHARS_IN_LOG_CAT + 12"

abbreviation (input) NUM_CAT_CASES :: nat where "NUM_CAT_CASES \<equiv> 2"
abbreviation (input) UPPER_INDEX :: nat where "UPPER_INDEX \<equiv> 0"
abbreviation (input) LOWER_INDEX :: nat where "LOWER_INDEX \<equiv> 1"

text \<open>The enumeration \<open>CatIndex\<close>: its members are array indices.\<close>

abbreviation (input) VERBOSE_IDX :: nat where "VERBOSE_IDX \<equiv> 0"
abbreviation (input) INFO_IDX :: nat where "INFO_IDX \<equiv> 1"
abbreviation (input) WARNING_IDX :: nat where "WARNING_IDX \<equiv> 2"
abbreviation (input) ERROR_IDX :: nat where "ERROR_IDX \<equiv> 3"
abbreviation (input) FATAL_IDX :: nat where "FATAL_IDX \<equiv> 4"

definition VALID_CATS :: "string list list" where
  "VALID_CATS =
    [ [''VERBOSE'', ''verbose''],
      [''INFO'', ''info''],
      [''WARNING'', ''warning''],
      [''ERROR'', ''error''],
      [''FATAL'', ''fatal''] ]"

subsection \<open>The C library functions the code calls\<close>

datatype error = NullDereference | ReadOutOfBounds | WriteOutOfBounds | UninitializedRead

abbreviation (input) NUL :: char where "NUL \<equiv> CHR 0x00"

text \<open>
  \<open>strcmp\<close> is zero exactly on equal strings; otherwise its sign is the order of
  the first two bytes that differ (a proper prefix is smaller).
\<close>

fun strcmp :: "string \<Rightarrow> string \<Rightarrow> int" where
  "strcmp [] [] = 0"
| "strcmp [] (b # bs) = - 1"
| "strcmp (a # as) [] = 1"
| "strcmp (a # as) (b # bs) =
     (if a = b then strcmp as bs
      else if (of_char a :: nat) < of_char b then - 1 else 1)"

text \<open>C's \<open>!\<close> and \<open>||\<close> on \<open>int\<close> operands, and the test of an \<open>int\<close> condition.\<close>

definition lnot :: "int \<Rightarrow> int" where
  "lnot a = (if a = 0 then 1 else 0)"

definition lor :: "int \<Rightarrow> int \<Rightarrow> int" where
  "lor a b = (if a = 0 then (if b = 0 then 0 else 1) else 1)"

definition truthy :: "int \<Rightarrow> bool" where
  "truthy a = (a \<noteq> 0)"

text \<open>\<open>strlen\<close> dereferences its argument; its \<open>size_t\<close> result is stored in an \<open>int\<close>.\<close>

definition strlen :: "string option \<Rightarrow> error + int" where
  "strlen p = (case p of None \<Rightarrow> Inl NullDereference
                | Some m \<Rightarrow> Inr (sint (word_of_nat (length m) :: 32 word)))"

text \<open>The bytes a string occupies in memory, and the string a byte array holds.\<close>

definition bytes_of :: "string \<Rightarrow> string" where
  "bytes_of m = m @ [NUL]"

definition c_string :: "string \<Rightarrow> error + string" where
  "c_string buf = (if NUL \<in> set buf then Inr (takeWhile (\<lambda>c. c \<noteq> NUL) buf)
                   else Inl ReadOutOfBounds)"

definition read_at :: "string \<Rightarrow> int \<Rightarrow> error + char" where
  "read_at buf i = (if 0 \<le> i \<and> i < int (length buf) then Inr (buf ! nat i)
                    else Inl ReadOutOfBounds)"

definition write_at :: "string \<Rightarrow> int \<Rightarrow> char \<Rightarrow> error + string" where
  "write_at buf i c = (if 0 \<le> i \<and> i < int (length buf) then Inr (buf[nat i := c])
                       else Inl WriteOutOfBounds)"

text \<open>
  \<open>strncpy dest src n\<close> writes exactly \<open>n\<close> bytes: the first \<open>n\<close> characters of
  \<open>src\<close>, then zero bytes when \<open>src\<close> is shorter (and no terminator when it is not).
\<close>

definition strncpy :: "string \<Rightarrow> string \<Rightarrow> nat \<Rightarrow> error + string" where
  "strncpy dest src n =
     (if n \<le> length dest
      then Inr (take n src @ replicate (n - length src) NUL @ drop n dest)
      else Inl WriteOutOfBounds)"

text \<open>\<open>sprintf\<close> into an array of \<open>cap\<close> bytes writes the text and its terminator.\<close>

definition sprintf :: "nat \<Rightarrow> string \<Rightarrow> error + string" where
  "sprintf cap text = (if length text + 1 \<le> cap then Inr text else Inl WriteOutOfBounds)"

text \<open>The conversion \<open>%-*s\<close>: left-justified, padded with spaces to the width.\<close>

definition pad_left_justified :: "nat \<Rightarrow> string \<Rightarrow> string" where
  "pad_left_justified w s = s @ replicate (w - length s) CHR '' ''"

text \<open>Sequencing of calls that may fail.\<close>

definition seq :: "error + 'a \<Rightarrow> ('a \<Rightarrow> error + 'b) \<Rightarrow> error + 'b" where
  "seq r f = (case r of Inl e \<Rightarrow> Inl e | Inr a \<Rightarrow> f a)"

subsection \<open>logFormat\<close>

text \<open>
  The array \<open>MsgStr msgField = "(null)"\<close>: \<open>MAX_CHARS_IN_MSG + 2\<close> bytes, those after
  the literal are zero.
\<close>

definition msgField_init :: string where
  "msgField_init = ''(null)'' @ replicate (MAX_CHARS_IN_MSG + 2 - 6) NUL"

text \<open>
  The block \<open>if (msg != NULL) { ... }\<close> of \<open>logFormat\<close>, on the array \<open>msgField\<close>;
  \<open>n\<close> is \<open>MSG_NUM_CHARS\<close>.
\<close>

definition fill_msgField :: "int \<Rightarrow> string option \<Rightarrow> error + string" where
  "fill_msgField n msg =
     (case msg of
        None \<Rightarrow> Inr msgField_init
      | Some m \<Rightarrow>
          seq (strncpy msgField_init m MAX_CHARS_IN_MSG) (\<lambda>msgField.
          seq (read_at (bytes_of m) (n - 1)) (\<lambda>last_char.
            if last_char \<in> {CHR ''.'', CHR ''!'', CHR ''?''} then Inr msgField
            else
              seq (write_at msgField n CHR ''.'') (\<lambda>msgField.
              write_at msgField (n + 1) NUL))))"

text \<open>
  The array \<open>DateStr dateField\<close> after the calls of \<open>time\<close>, \<open>localtime\<close> and
  \<open>strftime\<close>. The clock is the environment's: \<open>None\<close> when \<open>time\<close> or \<open>localtime\<close>
  fails, otherwise the characters \<open>strftime\<close> leaves in the array, of which there
  are at most \<open>MAX_CHARS_IN_DATE\<close> since the call never writes the array's last byte.
\<close>

definition fill_dateField :: "string option \<Rightarrow> string" where
  "fill_dateField clock = (case clock of None \<Rightarrow> [] | Some d \<Rightarrow> take MAX_CHARS_IN_DATE d)"

definition fill_catField :: "string option \<Rightarrow> error + string" where
  "fill_catField cat =
     (case cat of None \<Rightarrow> Inr []
      | Some c \<Rightarrow> sprintf (MAX_CHARS_IN_LOG_CAT + 1) (c @ '':''))"

text \<open>
  \<open>logFormat dest cat msg\<close>: \<open>dest\<close> is \<open>None\<close> for \<open>NULL\<close> and otherwise the size of
  the caller's array; the result is what the array holds afterwards (\<open>None\<close> when
  nothing was written and \<open>NULL\<close> is returned).
\<close>

definition logFormat :: "nat option \<Rightarrow> string option \<Rightarrow> string option \<Rightarrow> string option
    \<Rightarrow> error + string option" where
  "logFormat dest cat msg clock =
     seq (strlen msg) (\<lambda>MSG_NUM_CHARS.
     seq (fill_catField cat) (\<lambda>catField.
     seq (fill_msgField MSG_NUM_CHARS msg) (\<lambda>msgField.
       case dest of
         None \<Rightarrow> Inr None
       | Some cap \<Rightarrow>
           seq (c_string msgField) (\<lambda>msgText.
           seq (sprintf cap (fill_dateField clock @ [CHR 0x09, CHR 0x09]
                  @ pad_left_justified MAX_CHARS_IN_LOG_CAT catField
                  @ [CHR 0x09, CHR 0x09] @ msgText)) (\<lambda>text.
           Inr (Some text))))))"

subsection \<open>The global state\<close>

text \<open>
  A handler is a function pointer: one of the five default handlers of the
  library, or a function of the caller's, known by its address only.
\<close>

datatype handler =
    DefaultVerboseHandler
  | DefaultInfoHandler
  | DefaultWarningHandler
  | DefaultErrorHandler
  | DefaultFatalHandler
  | UserHandler nat

text \<open>
  The globals \<open>logHandlers\<close> (an array of \<open>NUM_LOG_CATS\<close> pointers, read and written
  at indices below \<open>NUM_LOG_CATS\<close> only), \<open>logOutput\<close> and \<open>initialized\<close>, and what
  the calls do to the world: the calls of \<open>atexit\<close>, the text written to each
  stream, the handler calls made with their arguments, and the clock that
  \<open>logFormat\<close> reads.
\<close>

record logger_state =
  logHandlers :: "nat \<Rightarrow> handler option"
  logOutput :: "nat option"
  initialized :: int
  atexit_calls :: nat
  written :: "(nat \<times> string) list"
  handler_calls :: "(handler \<times> int \<times> string option) list"
  clock :: "string option"

text \<open>The state at program start: \<open>{NULL}\<close>, \<open>NULL\<close> and \<open>0\<close>.\<close>

definition initial_state :: "string option \<Rightarrow> logger_state" where
  "initial_state c =
     \<lparr>logHandlers = (\<lambda>index. None), logOutput = None, initialized = 0,
      atexit_calls = 0, written = [], handler_calls = [], clock = c\<rparr>"

subsection \<open>The default handlers\<close>

text \<open>\<open>fprintf(stream, "%s\n", text)\<close>, where \<open>text\<close> is \<open>None\<close> when the array was never written.\<close>

definition fprintf_line :: "nat option \<Rightarrow> string option \<Rightarrow> logger_state \<Rightarrow> error + logger_state" where
  "fprintf_line stream text s =
     (case stream of
        None \<Rightarrow> Inl NullDereference
      | Some f \<Rightarrow>
          (case text of
             None \<Rightarrow> Inl UninitializedRead
           | Some t \<Rightarrow> Inr (s\<lparr>written := written s @ [(f, t @ [CHR 0x0A])]\<rparr>)))"

definition defaultVerboseHandler :: "int \<Rightarrow> string option \<Rightarrow> logger_state \<Rightarrow> error + logger_state" where
  "defaultVerboseHandler cond msg s =
     (if truthy cond \<and> logOutput s \<noteq> None then
        seq (logFormat (Some (MAX_CHARS_IN_FINAL_MSG + 1)) (Some ''VERBOSE'') msg (clock s))
          (\<lambda>formattedMsg. fprintf_line (logOutput s) formattedMsg s)
      else Inr s)"

definition defaultInfoHandler :: "int \<Rightarrow> string option \<Rightarrow> logger_state \<Rightarrow> error + logger_state" where
  "defaultInfoHandler cond msg s =
     (if truthy cond \<and> logOutput s \<noteq> None then
        seq (logFormat (Some (MAX_CHARS_IN_FINAL_MSG + 1)) (Some ''INFO'') msg (clock s))
          (\<lambda>formattedMsg. fprintf_line (logOutput s) formattedMsg s)
      else Inr s)"

definition defaultWarningHandler :: "int \<Rightarrow> string option \<Rightarrow> logger_state \<Rightarrow> error + logger_state" where
  "defaultWarningHandler cond msg s =
     (if truthy cond \<and> logOutput s \<noteq> None then
        seq (logFormat (Some (MAX_CHARS_IN_FINAL_MSG + 1)) (Some ''WARNING'') msg (clock s))
          (\<lambda>formattedMsg. fprintf_line (logOutput s) formattedMsg s)
      else Inr s)"

definition defaultErrorHandler :: "int \<Rightarrow> string option \<Rightarrow> logger_state \<Rightarrow> error + logger_state" where
  "defaultErrorHandler cond msg s =
     (if truthy cond \<and> logOutput s \<noteq> None then
        seq (logFormat (Some (MAX_CHARS_IN_FINAL_MSG + 1)) (Some ''ERROR'') msg (clock s))
          (\<lambda>formattedMsg. fprintf_line (logOutput s) formattedMsg s)
      else Inr s)"

definition defaultFatalHandler :: "int \<Rightarrow> string option \<Rightarrow> logger_state \<Rightarrow> error + logger_state" where
  "defaultFatalHandler cond msg s =
     (if truthy cond \<and> logOutput s \<noteq> None then
        seq (logFormat (Some (MAX_CHARS_IN_FINAL_MSG + 1)) (Some ''FATAL'') msg (clock s))
          (\<lambda>formattedMsg. fprintf_line (logOutput s) formattedMsg s)
      else Inr s)"

text \<open>
  The call \<open>logHandlers[index](cond, msg)\<close> through a pointer \<open>h\<close>. The call is
  recorded; a default handler then runs, and of a caller's function nothing
  more is known.
\<close>

definition call_handler :: "handler \<Rightarrow> int \<Rightarrow> string option \<Rightarrow> logger_state \<Rightarrow> error + logger_state" where
  "call_handler h cond msg s =
     (let s' = s\<lparr>handler_calls := handler_calls s @ [(h, cond, msg)]\<rparr>
      in case h of
           DefaultVerboseHandler \<Rightarrow> defaultVerboseHandler cond msg s'
         | DefaultInfoHandler \<Rightarrow> defaultInfoHandler cond msg s'
         | DefaultWarningHandler \<Rightarrow> defaultWarningHandler cond msg s'
         | DefaultErrorHandler \<Rightarrow> defaultErrorHandler cond msg s'
         | DefaultFatalHandler \<Rightarrow> defaultFatalHandler cond msg s'
         | UserHandler k \<Rightarrow> Inr s')"

subsection \<open>The emit functions of the five categories\<close>

definition verbose :: "int \<Rightarrow> string option \<Rightarrow> logger_state \<Rightarrow> error + logger_state" where
  "verbose cond msg s =
     (case logHandlers s VERBOSE_IDX of
        None \<Rightarrow> Inr s
      | Some h \<Rightarrow> call_handler h cond msg s)"

definition info :: "int \<Rightarrow> string option \<Rightarrow> logger_state \<Rightarrow> error + logger_state" where
  "info cond msg s =
     (case logHandlers s INFO_IDX of
        None \<Rightarrow> Inr s
      | Some h \<Rightarrow> call_handler h cond msg s)"

definition warning :: "int \<Rightarrow> string option \<Rightarrow> logger_state \<Rightarrow> error + logger_state" where
  "warning cond msg s =
     (case logHandlers s WARNING_IDX of
        None \<Rightarrow> Inr s
      | Some h \<Rightarrow> call_handler h cond msg s)"

definition error :: "int \<Rightarrow> string option \<Rightarrow> logger_state \<Rightarrow> error + logger_state" where
  "error cond msg s =
     (case logHandlers s ERROR_IDX of
        None \<Rightarrow> Inr s
      | Some h \<Rightarrow> call_handler h cond msg s)"

definition fatal :: "int \<Rightarrow> string option \<Rightarrow> logger_state \<Rightarrow> error + logger_state" where
  "fatal cond msg s =
     (case logHandlers s FATAL_IDX of
        None \<Rightarrow> Inr s
      | Some h \<Rightarrow> call_handler h cond msg s)"

subsection \<open>logger\<close>

text \<open>
  The \<open>for\<close> loop of \<open>logger\<close>, from \<open>index\<close> on: it ends when \<open>index\<close> reaches
  \<open>NUM_LOG_CATS\<close> or \<open>catValid\<close> is set, and returns \<open>catValid\<close>.
\<close>

function logger_loop :: "string \<Rightarrow> string option \<Rightarrow> nat \<Rightarrow> int \<Rightarrow> logger_state
    \<Rightarrow> error + (int \<times> logger_state)" where
  "logger_loop cat msg index catValid s =
     (if index < NUM_LOG_CATS \<and> truthy (lnot catValid) then
        (if truthy (lor (strcmp cat (VALID_CATS ! index ! UPPER_INDEX))
                        (strcmp cat (VALID_CATS ! index ! LOWER_INDEX)))
         then
           (case logHandlers s index of
              None \<Rightarrow> logger_loop cat msg (index + 1) 1 s
            | Some h \<Rightarrow>
                (case call_handler h 1 msg s of
                   Inl e \<Rightarrow> Inl e
                 | Inr s' \<Rightarrow> logger_loop cat msg (index + 1) 1 s'))
         else logger_loop cat msg (index + 1) catValid s)
      else Inr (catValid, s))"
  by pat_completeness auto
termination
  by (relation "measure (\<lambda>(cat, msg, index, catValid, s). NUM_LOG_CATS - index)") auto

declare logger_loop.simps [simp del]

definition logger :: "string option \<Rightarrow> string option \<Rightarrow> logger_state \<Rightarrow> error + logger_state" where
  "logger cat msg s =
     (if truthy (initialized s) then
        seq (case cat of
               None \<Rightarrow> Inr (0, s)
             | Some c \<Rightarrow> logger_loop c msg 0 0 s)
          (\<lambda>(catValid, s').
             if truthy (lnot catValid)
             then warning 1 (Some ''Invalid category provided. Message is not logged.'') s'
             else Inr s')
      else Inr s)"

subsection \<open>setHandler\<close>

function setHandler_loop :: "string \<Rightarrow> handler option \<Rightarrow> nat \<Rightarrow> int \<Rightarrow> logger_state
    \<Rightarrow> int \<times> logger_state" where
  "setHandler_loop cat handler index catValid s =
     (if index < NUM_LOG_CATS \<and> truthy (lnot catValid) then
        (if truthy (lor (lnot (strcmp cat (VALID_CATS ! index ! UPPER_INDEX)))
                        (lnot (strcmp cat (VALID_CATS ! index ! LOWER_INDEX))))
         then setHandler_loop cat handler (index + 1) 1
                (s\<lparr>logHandlers := (logHandlers s)(index := handler)\<rparr>)
         else setHandler_loop cat handler (index + 1) catValid s)
      else (catValid, s))"
  by pat_completeness auto
termination
  by (relation "measure (\<lambda>(cat, handler, index, catValid, s). NUM_LOG_CATS - index)") auto

declare setHandler_loop.simps [simp del]

definition setHandler :: "string option \<Rightarrow> handler option \<Rightarrow> logger_state
    \<Rightarrow> error + (int \<times> logger_state)" where
  "setHandler cat handler s =
     (case (case cat of
              None \<Rightarrow> (0, s)
            | Some c \<Rightarrow> if truthy (initialized s) then setHandler_loop c handler 0 0 s else (0, s))
      of (catValid, s') \<Rightarrow>
        if truthy (lnot catValid)
        then seq (warning 1 (Some ''Invalid category provided. Handler is not set.'') s')
               (\<lambda>s''. Inr (catValid, s''))
        else Inr (catValid, s'))"

subsection \<open>initLog\<close>

definition initLog :: "nat option \<Rightarrow> logger_state \<Rightarrow> error + (int \<times> logger_state)" where
  "initLog dest s =
     (if dest \<noteq> None \<and> truthy (lnot (initialized s)) then
        seq (setHandler (Some ''VERBOSE'') None (s\<lparr>logOutput := dest, initialized := 1\<rparr>))
          (\<lambda>(r1, s1).
        seq (setHandler (Some ''INFO'') (Some DefaultInfoHandler) s1) (\<lambda>(r2, s2).
        seq (setHandler (Some ''WARNING'') (Some DefaultWarningHandler) s2) (\<lambda>(r3, s3).
        seq (setHandler (Some ''ERROR'') (Some DefaultErrorHandler) s3) (\<lambda>(r4, s4).
        seq (setHandler (Some ''FATAL'') (Some DefaultFatalHandler) s4) (\<lambda>(r5, s5).
          Inr (initialized s5, s5\<lparr>atexit_calls := atexit_calls s5 + 1\<rparr>))))))
      else Inr (initialized s, s))"

subsection \<open>Programs: sequences of calls\<close>

datatype operation =
    InitLog "nat option"
  | Logger "string option" "string option"
  | SetHandler "string option" "handler option"
  | Verbose int "string option"
  | Info int "string option"
  | Warning int "string option"
  | Error int "string option"
  | Fatal int "string option"

fun exec :: "operation \<Rightarrow> logger_state \<Rightarrow> error + logger_state" where
  "exec (InitLog dest) s = seq (initLog dest s) (\<lambda>(r, s'). Inr s')"
| "exec (Logger cat msg) s = logger cat msg s"
| "exec (SetHandler cat handler) s = seq (setHandler cat handler s) (\<lambda>(r, s'). Inr s')"
| "exec (Verbose cond msg) s = verbose cond msg s"
| "exec (Info cond msg) s = info cond msg s"
| "exec (Warning cond msg) s = warning cond msg s"
| "exec (Error cond msg) s = error cond msg s"
| "exec (Fatal cond msg) s = fatal cond msg s"

fun run :: "operation list \<Rightarrow> logger_state \<Rightarrow> error + logger_state" where
  "run [] s = Inr s"
| "run (op # ops) s = seq (exec op s) (run ops)"

text \<open>
  The state that \<open>initLog\<close> leaves when it is called with the stream \<open>f\<close> at
  program start (lemma \<open>initLog_initial_state\<close> below).
\<close>

definition started_state :: "nat \<Rightarrow> string option \<Rightarrow> logger_state" where
  "started_state f c =
     \<lparr>logHandlers = (\<lambda>index. None)
        (INFO_IDX := Some DefaultInfoHandler,
         WARNING_IDX := Some DefaultWarningHandler,
         ERROR_IDX := Some DefaultErrorHandler,
         FATAL_IDX := Some DefaultFatalHandler),
      logOutput = Some f, initialized = 1,
      atexit_calls = 1, written = [], handler_calls = [], clock = c\<rparr>"

subsection \<open>Notions of the specification\<close>

text \<open>
  The category a name stands for, as the specification words it: one of the
  five names, in exact uppercase or exact lowercase spelling.
\<close>

definition spec_category_of :: "string \<Rightarrow> nat option" where
  "spec_category_of c =
     (if c = ''VERBOSE'' \<or> c = ''verbose'' then Some VERBOSE_IDX
      else if c = ''INFO'' \<or> c = ''info'' then Some INFO_IDX
      else if c = ''WARNING'' \<or> c = ''warning'' then Some WARNING_IDX
      else if c = ''ERROR'' \<or> c = ''error'' then Some ERROR_IDX
      else if c = ''FATAL'' \<or> c = ''fatal'' then Some FATAL_IDX
      else None)"

text \<open>
  The terminal-punctuation rule, as the specification words it: a message that
  ends in one of the three marks is kept, any other gains one full stop.
\<close>

definition spec_terminal_punctuation :: "string \<Rightarrow> string" where
  "spec_terminal_punctuation m =
     (if last m = CHR ''.'' \<or> last m = CHR ''!'' \<or> last m = CHR ''?'' then m else m @ ''.'')"

text \<open>The invariant: while the flag is false, every slot of the table is null.\<close>

definition handlers_null_until_initialized :: "logger_state \<Rightarrow> bool" where
  "handlers_null_until_initialized s =
     (truthy (initialized s)
      \<or> list_all (\<lambda>index. logHandlers s index = None) [0..<NUM_LOG_CATS])"

text \<open>Two states with the same globals differ in what was written and called only.\<close>

definition same_globals :: "logger_state \<Rightarrow> logger_state \<Rightarrow> bool" where
  "same_globals s s' =
     (logHandlers s' = logHandlers s \<and> logOutput s' = logOutput s
      \<and> initialized s' = initialized s \<and> atexit_calls s' = atexit_calls s
      \<and> clock s' = clock s)"

text \<open>The result of a call, with the flag of its final state set to \<open>b\<close>.\<close>

definition with_flag :: "int \<Rightarrow> error + logger_state \<Rightarrow> error + logger_state" where
  "with_flag b r = (case r of Inl e \<Rightarrow> Inl e | Inr s \<Rightarrow> Inr (s\<lparr>initialized := b\<rparr>))"

section \<open>Facts about the library functions\<close>

lemma strcmp_eq_0_iff: "strcmp a b = 0 \<longleftrightarrow> a = b"
  by (induction a b rule: strcmp.induct) auto

lemma truthy_lnot [simp]: "truthy (lnot a) \<longleftrightarrow> a = 0"
  by (simp add: truthy_def lnot_def)

lemma truthy_numerals [simp]: "truthy 1" "\<not> truthy 0"
  by (simp_all add: truthy_def)

lemma differs_from_one_spelling:
  "truthy (lor (strcmp c a) (strcmp c b)) \<longleftrightarrow> c \<noteq> a \<or> c \<noteq> b"
  by (auto simp add: truthy_def lor_def strcmp_eq_0_iff)

lemma equals_one_spelling:
  "truthy (lor (lnot (strcmp c a)) (lnot (strcmp c b))) \<longleftrightarrow> c = a \<or> c = b"
  by (auto simp add: truthy_def lor_def lnot_def strcmp_eq_0_iff)

lemma sint_length_small: "n < 2 ^ 31 \<Longrightarrow> sint (word_of_nat n :: 32 word) = int n"
  by (simp add: signed_of_nat signed_take_bit_int_eq_self)

lemma strlen_Some: "length m < 2 ^ 31 \<Longrightarrow> strlen (Some m) = Inr (int (length m))"
  by (simp add: strlen_def sint_length_small)

lemma seq_Inr [simp]: "seq (Inr a) f = f a"
  by (simp add: seq_def)

lemma seq_Inl [simp]: "seq (Inl e) f = Inl e"
  by (simp add: seq_def)

lemma seq_eq_Inr: "seq r f = Inr b \<longleftrightarrow> (\<exists>a. r = Inr a \<and> f a = Inr b)"
  by (cases r) simp_all

lemma c_string_terminated:
  assumes "NUL \<notin> set m"
  shows "c_string (m @ NUL # r) = Inr m"
proof -
  have "takeWhile (\<lambda>c. c \<noteq> NUL) (m @ NUL # r) = m"
    using assms by (induction m) auto
  then show ?thesis by (simp add: c_string_def)
qed

lemma read_last:
  assumes "m \<noteq> []"
  shows "read_at (bytes_of m) (int (length m) - 1) = Inr (last m)"
proof -
  from assms have pos: "0 < length m" by simp
  then have "nat (int (length m) - 1) = length m - 1" by simp
  moreover have "(m @ [NUL]) ! (length m - 1) = last m"
    using assms pos by (simp add: nth_append last_conv_nth)
  ultimately show ?thesis using pos by (simp add: read_at_def bytes_of_def)
qed

lemma padding_spaces:
  "replicate 3 CHR '' '' = ''   ''"
  "replicate 8 CHR '' '' = ''        ''"
  by (simp_all add: numeral_eq_Suc)

section \<open>logFormat\<close>

subsection \<open>The message field\<close>

lemma length_msgField_init: "length msgField_init = MAX_CHARS_IN_MSG + 2"
  by (simp add: msgField_init_def)

lemma drop_msgField_init: "drop MAX_CHARS_IN_MSG msgField_init = [NUL, NUL]"
  by (simp add: msgField_init_def numeral_eq_Suc)

lemma strncpy_short:
  assumes "length m \<le> MAX_CHARS_IN_MSG"
  shows "strncpy msgField_init m MAX_CHARS_IN_MSG
           = Inr (m @ NUL # NUL # replicate (MAX_CHARS_IN_MSG - length m) NUL)"
  using assms
  by (simp add: strncpy_def length_msgField_init drop_msgField_init replicate_app_Cons_same)

lemma write_punctuation:
  "seq (write_at (m @ NUL # NUL # r) (int (length m)) CHR ''.'')
     (\<lambda>msgField. write_at msgField (int (length m) + 1) NUL)
   = Inr (m @ CHR ''.'' # NUL # r)"
proof -
  have "write_at (m @ NUL # NUL # r) (int (length m)) CHR ''.''
          = Inr (m @ CHR ''.'' # NUL # r)"
    by (simp add: write_at_def)
  moreover have "nat (int (length m) + 1) = Suc (length m)"
    by simp
  then have "write_at (m @ CHR ''.'' # NUL # r) (int (length m) + 1) NUL
          = Inr (m @ CHR ''.'' # NUL # r)"
    by (simp add: write_at_def list_update_append)
  ultimately show ?thesis by simp
qed

text \<open>
  On a message that is not empty and fits the field, the field ends up holding
  the message under the terminal-punctuation rule.
\<close>

lemma fill_msgField_short:
  assumes "m \<noteq> []" and "length m \<le> MAX_CHARS_IN_MSG" and "NUL \<notin> set m"
  shows "seq (fill_msgField (int (length m)) (Some m)) c_string
           = Inr (spec_terminal_punctuation m)"
proof (cases "last m \<in> {CHR ''.'', CHR ''!'', CHR ''?''}")
  case True
  then have "fill_msgField (int (length m)) (Some m)
               = Inr (m @ NUL # NUL # replicate (MAX_CHARS_IN_MSG - length m) NUL)"
    using assms by (simp add: fill_msgField_def strncpy_short read_last)
  then show ?thesis
    using True assms(3) by (auto simp add: c_string_terminated spec_terminal_punctuation_def)
next
  case False
  then have "fill_msgField (int (length m)) (Some m)
               = Inr (m @ CHR ''.'' # NUL # replicate (MAX_CHARS_IN_MSG - length m) NUL)"
    using assms by (simp add: fill_msgField_def strncpy_short read_last write_punctuation)
  moreover have "NUL \<notin> set (m @ ''.'')"
    using assms(3) by simp
  then have "c_string ((m @ ''.'') @ NUL # replicate (MAX_CHARS_IN_MSG - length m) NUL)
               = Inr (m @ ''.'')"
    by (rule c_string_terminated)
  ultimately show ?thesis
    using False by (auto simp add: spec_terminal_punctuation_def)
qed

subsection \<open>The whole line\<close>

lemma length_fill_dateField: "length (fill_dateField clk) \<le> MAX_CHARS_IN_DATE"
  by (simp add: fill_dateField_def split: option.split)

lemma length_spec_terminal_punctuation:
  "length (spec_terminal_punctuation m) \<le> length m + 1"
  by (simp add: spec_terminal_punctuation_def)

lemma fill_catField_fits:
  assumes "case cat of None \<Rightarrow> True | Some c \<Rightarrow> length c < MAX_CHARS_IN_LOG_CAT"
  shows "fill_catField cat = Inr (case cat of None \<Rightarrow> [] | Some c \<Rightarrow> c @ '':'')"
    and "length (pad_left_justified MAX_CHARS_IN_LOG_CAT
           (case cat of None \<Rightarrow> [] | Some c \<Rightarrow> c @ '':'')) = MAX_CHARS_IN_LOG_CAT"
  using assms
  by (auto simp add: fill_catField_def sprintf_def pad_left_justified_def split: option.splits)

lemma logFormat_fits:
  assumes "m \<noteq> []" and "length m \<le> MAX_CHARS_IN_MSG" and "NUL \<notin> set m"
    and "case cat of None \<Rightarrow> True | Some c \<Rightarrow> length c < MAX_CHARS_IN_LOG_CAT"
    and "MAX_CHARS_IN_FINAL_MSG + 1 \<le> cap"
  shows "logFormat (Some cap) cat (Some m) clk =
           Inr (Some (fill_dateField clk @ [CHR 0x09, CHR 0x09]
             @ pad_left_justified MAX_CHARS_IN_LOG_CAT
                 (case cat of None \<Rightarrow> [] | Some c \<Rightarrow> c @ '':'')
             @ [CHR 0x09, CHR 0x09] @ spec_terminal_punctuation m))"
proof -
  let ?catField = "case cat of None \<Rightarrow> [] | Some c \<Rightarrow> c @ '':''"
  let ?line = "fill_dateField clk @ [CHR 0x09, CHR 0x09]
             @ pad_left_justified MAX_CHARS_IN_LOG_CAT ?catField
             @ [CHR 0x09, CHR 0x09] @ spec_terminal_punctuation m"
  have len: "strlen (Some m) = Inr (int (length m))"
    using assms(2) by (simp add: strlen_Some)
  have "seq (fill_msgField (int (length m)) (Some m)) c_string
          = Inr (spec_terminal_punctuation m)"
    using assms(1,2,3) by (rule fill_msgField_short)
  then obtain msgField where field: "fill_msgField (int (length m)) (Some m) = Inr msgField"
    and rendered: "c_string msgField = Inr (spec_terminal_punctuation m)"
    by (cases "fill_msgField (int (length m)) (Some m)") simp_all
  have "length ?line \<le> 30 + 2 + 8 + 2 + (length m + 1)"
    using length_fill_dateField [of clk] length_spec_terminal_punctuation [of m]
      fill_catField_fits(2) [OF assms(4)]
    by simp
  then have "length ?line + 1 \<le> cap"
    using assms(2,5) by simp
  then have "sprintf cap ?line = Inr ?line"
    by (simp add: sprintf_def)
  then show ?thesis
    using len field rendered fill_catField_fits(1) [OF assms(4)]
    by (simp add: logFormat_def)
qed

text \<open>
  On a message that fits the field, whatever the label and the destination:
  the label is copied, and the line is written with the message under the
  terminal-punctuation rule.
\<close>

lemma logFormat_message_rule:
  assumes "m \<noteq> []" and "length m \<le> MAX_CHARS_IN_MSG" and "NUL \<notin> set m"
  shows "logFormat dest cat (Some m) clk =
           seq (fill_catField cat) (\<lambda>catField.
             case dest of
               None \<Rightarrow> Inr None
             | Some cap \<Rightarrow>
                 seq (sprintf cap (fill_dateField clk @ [CHR 0x09, CHR 0x09]
                        @ pad_left_justified MAX_CHARS_IN_LOG_CAT catField
                        @ [CHR 0x09, CHR 0x09] @ spec_terminal_punctuation m))
                   (\<lambda>line. Inr (Some line)))"
proof -
  have len: "strlen (Some m) = Inr (int (length m))"
    using assms(2) by (simp add: strlen_Some)
  have "seq (fill_msgField (int (length m)) (Some m)) c_string
          = Inr (spec_terminal_punctuation m)"
    using assms by (rule fill_msgField_short)
  then obtain msgField where field: "fill_msgField (int (length m)) (Some m) = Inr msgField"
    and rendered: "c_string msgField = Inr (spec_terminal_punctuation m)"
    by (cases "fill_msgField (int (length m)) (Some m)") simp_all
  show ?thesis
    using len field rendered
    by (cases "fill_catField cat") (simp_all add: logFormat_def split: option.split)
qed

text \<open>
  Claim C3: for every message longer than the maximum message length,
  \<open>logFormat\<close> truncates the message first and only then applies the
  terminal-punctuation rule, so that every write stays within the message field
  and the rendered message never exceeds the maximum length plus one character.

  The code applies the rule at the length of the whole message, not of the
  truncated one. On a message of 61 characters that ends in a letter it stores
  the full stop at index 61 of the field and the terminator at index 62, one
  past the end of the \<open>MAX_CHARS_IN_MSG + 2\<close> bytes.
\<close>

theorem logFormat_long_message_writes_outside_field:
  "fill_msgField 61 (Some (replicate 61 CHR ''a'')) = Inl WriteOutOfBounds
   \<and> logFormat (Some (MAX_CHARS_IN_FINAL_MSG + 1)) (Some ''INFO'')
         (Some (replicate 61 CHR ''a'')) None = Inl WriteOutOfBounds"
  by code_simp

text \<open>
  Claim C4: calling \<open>logFormat\<close> with a null message is never an error: the
  text \<open>(null)\<close> is used as the message field and formatting completes.

  The code takes \<open>strlen(msg)\<close> in its first declaration, before the test
  \<open>msg != NULL\<close>: a null message is dereferenced, whatever the other arguments.
\<close>

theorem logFormat_null_message_dereferenced:
  "logFormat dest cat None clk = Inl NullDereference"
  by (simp add: logFormat_def strlen_def)

text \<open>
  Claim C8: for every message and category label passed to \<open>logFormat\<close>, a
  message that ends in \<open>.\<close>, \<open>!\<close> or \<open>?\<close> is rendered with its text unmodified,
  and a message that ends in any other character is rendered with exactly one
  \<open>.\<close> appended and nothing else changed.

  As stated this fails on a message longer than the message field can hold:
  61 letters followed by a full stop are 62 characters, and the copy into the
  field stops at \<open>MAX_CHARS_IN_MSG\<close>. The line with the unmodified message is not
  what \<open>logFormat\<close> gives, and it is not what truncation followed by the
  terminal-punctuation rule gives either.
\<close>

theorem logFormat_cannot_keep_long_message:
  "last (replicate 61 CHR ''a'' @ ''.'') = CHR ''.''
   \<and> logFormat (Some (MAX_CHARS_IN_FINAL_MSG + 1)) (Some ''INFO'')
         (Some (replicate 61 CHR ''a'' @ ''.'')) None
       \<noteq> Inr (Some ([CHR 0x09, CHR 0x09] @ ''INFO:   '' @ [CHR 0x09, CHR 0x09]
                @ replicate 61 CHR ''a'' @ ''.''))
   \<and> spec_terminal_punctuation (take MAX_CHARS_IN_MSG (replicate 61 CHR ''a'' @ ''.''))
       \<noteq> replicate 61 CHR ''a'' @ ''.''"
  by code_simp

text \<open>
  Claim C8, amended: for every message of at most \<open>MAX_CHARS_IN_MSG\<close> characters
  and every category label and destination passed to \<open>logFormat\<close>, a message
  that ends in \<open>.\<close>, \<open>!\<close> or \<open>?\<close> is rendered with its text unmodified, and a
  message that ends in any other character is rendered with exactly one \<open>.\<close>
  appended and nothing else changed.

  The message is \<open>body @ [c]\<close>, ending in the character \<open>c\<close>. Whatever the label
  and the destination, \<open>logFormat\<close> does what copying the label and writing the
  line of date, padded label and this message text do.
\<close>

theorem logFormat_terminal_punctuation:
  assumes "length (body @ [c]) \<le> MAX_CHARS_IN_MSG" and "NUL \<notin> set (body @ [c])"
  shows "logFormat dest cat (Some (body @ [c])) clk =
           seq (fill_catField cat) (\<lambda>catField.
             case dest of
               None \<Rightarrow> Inr None
             | Some cap \<Rightarrow>
                 seq (sprintf cap (fill_dateField clk @ [CHR 0x09, CHR 0x09]
                        @ pad_left_justified MAX_CHARS_IN_LOG_CAT catField
                        @ [CHR 0x09, CHR 0x09]
                        @ (if c = CHR ''.'' \<or> c = CHR ''!'' \<or> c = CHR ''?''
                           then body @ [c] else body @ [c] @ ''.'')))
                   (\<lambda>line. Inr (Some line)))"
proof -
  have "body @ [c] \<noteq> []" by simp
  moreover have "spec_terminal_punctuation (body @ [c])
      = (if c = CHR ''.'' \<or> c = CHR ''!'' \<or> c = CHR ''?''
         then body @ [c] else body @ [c] @ ''.'')"
    by (simp add: spec_terminal_punctuation_def)
  ultimately show ?thesis
    using logFormat_message_rule [of "body @ [c]" dest cat clk] assms by presburger
qed

theorem logFormat_terminal_punctuation_witness:
  "logFormat (Some 111) (Some ''INFO'') (Some ''Hello'') None
     = Inr (Some ([CHR 0x09, CHR 0x09] @ ''INFO:   '' @ [CHR 0x09, CHR 0x09] @ ''Hello.''))
   \<and> logFormat (Some 111) None (Some ''Stop!'') None
     = Inr (Some ([CHR 0x09, CHR 0x09] @ ''        '' @ [CHR 0x09, CHR 0x09] @ ''Stop!''))"
  using logFormat_terminal_punctuation [of "''Hell''" "CHR ''o''" "Some 111" "Some ''INFO''" None]
    logFormat_terminal_punctuation [of "''Stop''" "CHR ''!''" "Some 111" None None]
  by (simp add: fill_catField_def sprintf_def fill_dateField_def pad_left_justified_def
      padding_spaces)

section \<open>Handlers\<close>

subsection \<open>A handler call changes no global\<close>

lemma same_globals_refl: "same_globals s s"
  by (simp add: same_globals_def)

lemma fprintf_line_globals:
  "fprintf_line stream t s = Inr s' \<Longrightarrow> same_globals s s'"
  by (auto simp add: fprintf_line_def same_globals_def split: option.splits)

lemma default_handlers_globals:
  "defaultVerboseHandler cond msg s = Inr s' \<Longrightarrow> same_globals s s'"
  "defaultInfoHandler cond msg s = Inr s' \<Longrightarrow> same_globals s s'"
  "defaultWarningHandler cond msg s = Inr s' \<Longrightarrow> same_globals s s'"
  "defaultErrorHandler cond msg s = Inr s' \<Longrightarrow> same_globals s s'"
  "defaultFatalHandler cond msg s = Inr s' \<Longrightarrow> same_globals s s'"
  by (auto simp add: defaultVerboseHandler_def defaultInfoHandler_def defaultWarningHandler_def
      defaultErrorHandler_def defaultFatalHandler_def seq_eq_Inr same_globals_def
      split: if_splits dest!: fprintf_line_globals)

lemma call_handler_globals:
  assumes "call_handler h cond msg s = Inr s'"
  shows "same_globals s s'"
proof -
  let ?t = "s\<lparr>handler_calls := handler_calls s @ [(h, cond, msg)]\<rparr>"
  have "same_globals ?t s'"
    using assms
    by (cases h) (auto simp add: call_handler_def Let_def same_globals_def
        dest!: default_handlers_globals)
  then show ?thesis by (simp add: same_globals_def)
qed

subsection \<open>A handler call is recorded with its arguments\<close>

lemma default_handlers_calls:
  "defaultVerboseHandler cond msg s = Inr s' \<Longrightarrow> handler_calls s' = handler_calls s"
  "defaultInfoHandler cond msg s = Inr s' \<Longrightarrow> handler_calls s' = handler_calls s"
  "defaultWarningHandler cond msg s = Inr s' \<Longrightarrow> handler_calls s' = handler_calls s"
  "defaultErrorHandler cond msg s = Inr s' \<Longrightarrow> handler_calls s' = handler_calls s"
  "defaultFatalHandler cond msg s = Inr s' \<Longrightarrow> handler_calls s' = handler_calls s"
  by (auto simp add: defaultVerboseHandler_def defaultInfoHandler_def defaultWarningHandler_def
      defaultErrorHandler_def defaultFatalHandler_def seq_eq_Inr fprintf_line_def
      split: if_splits option.splits)

lemma call_handler_recorded:
  assumes "call_handler h cond msg s = Inr s'"
  shows "handler_calls s' = handler_calls s @ [(h, cond, msg)]"
  using assms by (cases h) (auto simp add: call_handler_def Let_def dest: default_handlers_calls)

subsection \<open>A handler call does not read the flag\<close>

lemma with_flag_simps [simp]:
  "with_flag b (Inl e) = Inl e"
  "with_flag b (Inr s) = Inr (s\<lparr>initialized := b\<rparr>)"
  by (simp_all add: with_flag_def)

lemma with_flag_seq: "with_flag b (seq r f) = seq r (\<lambda>a. with_flag b (f a))"
  by (cases r) simp_all

lemma fprintf_line_flag:
  "fprintf_line stream t (s\<lparr>initialized := b\<rparr>) = with_flag b (fprintf_line stream t s)"
  by (simp add: fprintf_line_def split: option.split)

lemma default_handlers_flag:
  "defaultVerboseHandler cond msg (s\<lparr>initialized := b\<rparr>)
     = with_flag b (defaultVerboseHandler cond msg s)"
  "defaultInfoHandler cond msg (s\<lparr>initialized := b\<rparr>)
     = with_flag b (defaultInfoHandler cond msg s)"
  "defaultWarningHandler cond msg (s\<lparr>initialized := b\<rparr>)
     = with_flag b (defaultWarningHandler cond msg s)"
  "defaultErrorHandler cond msg (s\<lparr>initialized := b\<rparr>)
     = with_flag b (defaultErrorHandler cond msg s)"
  "defaultFatalHandler cond msg (s\<lparr>initialized := b\<rparr>)
     = with_flag b (defaultFatalHandler cond msg s)"
  by (auto simp add: defaultVerboseHandler_def defaultInfoHandler_def defaultWarningHandler_def
      defaultErrorHandler_def defaultFatalHandler_def with_flag_seq fprintf_line_flag)

lemma call_handler_flag:
  "call_handler h cond msg (s\<lparr>initialized := b\<rparr>) = with_flag b (call_handler h cond msg s)"
proof -
  have swap: "s\<lparr>initialized := b, handler_calls := cs\<rparr>
                = s\<lparr>handler_calls := cs, initialized := b\<rparr>" for cs
    by simp
  show ?thesis
    by (cases h) (simp_all add: call_handler_def Let_def swap default_handlers_flag)
qed

subsection \<open>A default handler returns on a message that fits the message field\<close>

lemma default_handlers_return:
  assumes "m \<noteq> []" and "length m \<le> MAX_CHARS_IN_MSG" and "NUL \<notin> set m"
  shows "\<exists>s'. defaultVerboseHandler cond (Some m) s = Inr s'"
    and "\<exists>s'. defaultInfoHandler cond (Some m) s = Inr s'"
    and "\<exists>s'. defaultWarningHandler cond (Some m) s = Inr s'"
    and "\<exists>s'. defaultErrorHandler cond (Some m) s = Inr s'"
    and "\<exists>s'. defaultFatalHandler cond (Some m) s = Inr s'"
  using assms
  by (auto simp add: defaultVerboseHandler_def defaultInfoHandler_def defaultWarningHandler_def
      defaultErrorHandler_def defaultFatalHandler_def logFormat_fits fprintf_line_def)

lemma call_handler_returns:
  assumes "m \<noteq> []" and "length m \<le> MAX_CHARS_IN_MSG" and "NUL \<notin> set m"
  shows "\<exists>s'. call_handler h cond (Some m) s = Inr s'"
  using default_handlers_return [OF assms]
  by (cases h) (simp_all add: call_handler_def Let_def)

section \<open>The emit functions of the five categories\<close>

lemma emit_through_slot:
  "verbose cond msg s =
     (case logHandlers s VERBOSE_IDX of None \<Rightarrow> Inr s | Some h \<Rightarrow> call_handler h cond msg s)"
  "info cond msg s =
     (case logHandlers s INFO_IDX of None \<Rightarrow> Inr s | Some h \<Rightarrow> call_handler h cond msg s)"
  "warning cond msg s =
     (case logHandlers s WARNING_IDX of None \<Rightarrow> Inr s | Some h \<Rightarrow> call_handler h cond msg s)"
  "error cond msg s =
     (case logHandlers s ERROR_IDX of None \<Rightarrow> Inr s | Some h \<Rightarrow> call_handler h cond msg s)"
  "fatal cond msg s =
     (case logHandlers s FATAL_IDX of None \<Rightarrow> Inr s | Some h \<Rightarrow> call_handler h cond msg s)"
  by (simp_all add: verbose_def info_def warning_def error_def fatal_def)

lemma emit_globals:
  "verbose cond msg s = Inr s' \<Longrightarrow> same_globals s s'"
  "info cond msg s = Inr s' \<Longrightarrow> same_globals s s'"
  "warning cond msg s = Inr s' \<Longrightarrow> same_globals s s'"
  "error cond msg s = Inr s' \<Longrightarrow> same_globals s s'"
  "fatal cond msg s = Inr s' \<Longrightarrow> same_globals s s'"
  by (auto simp add: emit_through_slot same_globals_def
      split: option.splits dest!: call_handler_globals)

lemma warning_returns:
  assumes "m \<noteq> []" and "length m \<le> MAX_CHARS_IN_MSG" and "NUL \<notin> set m"
  shows "\<exists>s'. warning cond (Some m) s = Inr s'"
  using call_handler_returns [OF assms]
  by (simp add: warning_def split: option.split)

lemma warning_not_set_returns:
  "\<exists>s'. warning 1 (Some ''Invalid category provided. Handler is not set.'') s = Inr s'"
  by (rule warning_returns) simp_all

text \<open>
  Claim C9: each of the five emit functions (\<open>verbose\<close>, \<open>info\<close>, \<open>warning\<close>,
  \<open>error\<close>, \<open>fatal\<close>), for every condition and message, calls the handler in its
  slot of the table with exactly the given condition and message when the slot
  holds one, and does nothing when the slot is empty; in both cases the
  initialized flag is not consulted: with another value of the flag the call
  does the same.
\<close>

theorem emit_calls_slot_handler:
  "\<forall>(emit, index) \<in> set [(verbose, VERBOSE_IDX), (info, INFO_IDX), (warning, WARNING_IDX),
                           (error, ERROR_IDX), (fatal, FATAL_IDX)].
     (case logHandlers s index of
        None \<Rightarrow> emit cond msg s = Inr s
      | Some h \<Rightarrow> emit cond msg s = call_handler h cond msg s
          \<and> (case emit cond msg s of
               Inl e \<Rightarrow> True
             | Inr s' \<Rightarrow> handler_calls s' = handler_calls s @ [(h, cond, msg)]))
     \<and> emit cond msg (s\<lparr>initialized := b\<rparr>) = with_flag b (emit cond msg s)"
proof -
  define through where "through emit index \<longleftrightarrow>
     (case logHandlers s index of
        None \<Rightarrow> emit cond msg s = Inr s
      | Some h \<Rightarrow> emit cond msg s = call_handler h cond msg s
          \<and> (case emit cond msg s of
               Inl e \<Rightarrow> True
             | Inr s' \<Rightarrow> handler_calls s' = handler_calls s @ [(h, cond, msg)]))
     \<and> emit cond msg (s\<lparr>initialized := b\<rparr>) = with_flag b (emit cond msg s)"
    for emit :: "int \<Rightarrow> string option \<Rightarrow> logger_state \<Rightarrow> error + logger_state" and index
  have "through verbose VERBOSE_IDX"
    unfolding through_def
    by (auto simp add: emit_through_slot call_handler_flag dest: call_handler_recorded
        split: option.split sum.split)
  moreover have "through info INFO_IDX"
    unfolding through_def
    by (auto simp add: emit_through_slot call_handler_flag dest: call_handler_recorded
        split: option.split sum.split)
  moreover have "through warning WARNING_IDX"
    unfolding through_def
    by (auto simp add: emit_through_slot call_handler_flag dest: call_handler_recorded
        split: option.split sum.split)
  moreover have "through error ERROR_IDX"
    unfolding through_def
    by (auto simp add: emit_through_slot call_handler_flag dest: call_handler_recorded
        split: option.split sum.split)
  moreover have "through fatal FATAL_IDX"
    unfolding through_def
    by (auto simp add: emit_through_slot call_handler_flag dest: call_handler_recorded
        split: option.split sum.split)
  ultimately show ?thesis
    by (simp add: through_def)
qed

theorem emit_calls_slot_handler_witness:
  "info 1 (Some ''Hello'') (started_state 1 None)
     = call_handler DefaultInfoHandler 1 (Some ''Hello'') (started_state 1 None)
   \<and> verbose 1 (Some ''Hello'') (started_state 1 None) = Inr (started_state 1 None)
   \<and> fatal 0 None ((started_state 1 None)\<lparr>initialized := 0\<rparr>)
       = with_flag 0 (fatal 0 None (started_state 1 None))"
  using emit_calls_slot_handler [where s = "started_state 1 None" and cond = 1
      and msg = "Some ''Hello''" and b = 0]
    emit_calls_slot_handler [where s = "started_state 1 None" and cond = 0 and msg = None
      and b = 0]
  by (simp add: started_state_def)

section \<open>setHandler\<close>

lemma setHandler_loop_result:
  "setHandler_loop c h 0 0 s =
     (case spec_category_of c of
        None \<Rightarrow> (0, s)
      | Some index \<Rightarrow> (1, s\<lparr>logHandlers := (logHandlers s)(index := h)\<rparr>))"
  by (simp add: setHandler_loop.simps equals_one_spelling VALID_CATS_def spec_category_of_def
      eval_nat_numeral)

lemma setHandler_matched:
  assumes "truthy (initialized s)" and "spec_category_of c = Some index"
  shows "setHandler (Some c) h s = Inr (1, s\<lparr>logHandlers := (logHandlers s)(index := h)\<rparr>)"
  using assms by (simp add: setHandler_def setHandler_loop_result)

lemma setHandler_unmatched:
  assumes "\<not> (truthy (initialized s) \<and> spec_category_of c \<noteq> None)"
  shows "setHandler (Some c) h s =
           seq (warning 1 (Some ''Invalid category provided. Handler is not set.'') s)
             (\<lambda>s'. Inr (0, s'))"
  using assms by (auto simp add: setHandler_def setHandler_loop_result)

lemma setHandler_null_name:
  "setHandler None h s =
     seq (warning 1 (Some ''Invalid category provided. Handler is not set.'') s)
       (\<lambda>s'. Inr (0, s'))"
  by (simp add: setHandler_def)

text \<open>
  Claim C6: for every category name and handler, \<open>setHandler\<close> replaces the slot
  of the matched category (a null handler disables the category) and returns
  true exactly when the name is one of the five categories in uppercase or
  lowercase spelling while the subsystem is initialized; in every other case,
  a valid name while uninitialized included, it changes no slot, emits a
  WARNING with the text \<open>Invalid category provided. Handler is not set.\<close> and
  returns false.
\<close>

theorem setHandler_result:
  "(truthy (initialized s) \<and> spec_category_of c = Some index \<longrightarrow>
      setHandler (Some c) h s = Inr (1, s\<lparr>logHandlers := (logHandlers s)(index := h)\<rparr>))
   \<and> (\<not> (truthy (initialized s) \<and> spec_category_of c \<noteq> None) \<longrightarrow>
        (\<exists>s'. warning 1 (Some ''Invalid category provided. Handler is not set.'') s = Inr s'
           \<and> setHandler (Some c) h s = Inr (0, s')
           \<and> logHandlers s' = logHandlers s))"
proof (intro conjI impI)
  assume "truthy (initialized s) \<and> spec_category_of c = Some index"
  then show "setHandler (Some c) h s = Inr (1, s\<lparr>logHandlers := (logHandlers s)(index := h)\<rparr>)"
    by (simp add: setHandler_matched)
next
  assume unmatched: "\<not> (truthy (initialized s) \<and> spec_category_of c \<noteq> None)"
  obtain s' where w: "warning 1 (Some ''Invalid category provided. Handler is not set.'') s = Inr s'"
    using warning_not_set_returns by blast
  then have "same_globals s s'"
    by (rule emit_globals)
  then have "logHandlers s' = logHandlers s"
    by (simp add: same_globals_def)
  moreover have "setHandler (Some c) h s = Inr (0, s')"
    using setHandler_unmatched [OF unmatched] w by simp
  ultimately
  show "\<exists>s'. warning 1 (Some ''Invalid category provided. Handler is not set.'') s = Inr s'
           \<and> setHandler (Some c) h s = Inr (0, s')
           \<and> logHandlers s' = logHandlers s"
    using w by blast
qed

theorem setHandler_result_witness:
  "truthy (initialized (started_state 1 None)) \<and> spec_category_of ''warning'' = Some WARNING_IDX
   \<and> setHandler (Some ''warning'') None (started_state 1 None)
       = Inr (1, (started_state 1 None)
              \<lparr>logHandlers := (logHandlers (started_state 1 None))(WARNING_IDX := None)\<rparr>)
   \<and> spec_category_of ''Warning'' = None
   \<and> (\<exists>s'. setHandler (Some ''Warning'') None (started_state 1 None) = Inr (0, s')
          \<and> logHandlers s' = logHandlers (started_state 1 None))"
  using setHandler_result [of "started_state 1 None" "''warning''" 2 None]
    setHandler_result [of "started_state 1 None" "''Warning''" 2 None]
  by (auto simp add: started_state_def spec_category_of_def truthy_def)

section \<open>initLog\<close>

lemma initLog_first:
  assumes "initialized s = 0"
  shows "initLog (Some f) s =
           Inr (1, s\<lparr>logHandlers := (logHandlers s)
                        (VERBOSE_IDX := None,
                         INFO_IDX := Some DefaultInfoHandler,
                         WARNING_IDX := Some DefaultWarningHandler,
                         ERROR_IDX := Some DefaultErrorHandler,
                         FATAL_IDX := Some DefaultFatalHandler),
                      logOutput := Some f, initialized := 1,
                      atexit_calls := atexit_calls s + 1\<rparr>)"
  using assms
  by (simp add: initLog_def setHandler_matched spec_category_of_def)

lemma initLog_again:
  assumes "initialized s \<noteq> 0"
  shows "initLog dest s = Inr (initialized s, s)"
  using assms by (simp add: initLog_def)

lemma initLog_null:
  "initLog None s = Inr (initialized s, s)"
  by (simp add: initLog_def)

lemma initLog_initial_state:
  "initLog (Some f) (initial_state c) = Inr (1, started_state f c)"
  by (simp add: initLog_first initial_state_def started_state_def)

text \<open>
  Claim C5: \<open>initLog\<close> returns whether the subsystem is initialized after the
  call: a first call with a non-null stream records the stream, marks the
  subsystem initialized and returns true; a second call with a valid stream is a
  no-op that still returns true; a call with a null stream changes no state and
  returns the prior status.
\<close>

theorem initLog_reports_initialized:
  "(initialized s = 0 \<longrightarrow>
      (\<exists>s'. initLog (Some f) s = Inr (1, s') \<and> logOutput s' = Some f \<and> initialized s' = 1))
   \<and> (initialized s = 1 \<longrightarrow> initLog (Some f) s = Inr (1, s))
   \<and> initLog None s = Inr (initialized s, s)
   \<and> (\<exists>s'. initLog dest s = Inr (initialized s', s'))"
proof (intro conjI impI)
  assume "initialized s = 0"
  then show "\<exists>s'. initLog (Some f) s = Inr (1, s') \<and> logOutput s' = Some f \<and> initialized s' = 1"
    by (simp add: initLog_first)
next
  assume "initialized s = 1"
  then show "initLog (Some f) s = Inr (1, s)"
    by (simp add: initLog_again)
next
  show "initLog None s = Inr (initialized s, s)"
    by (rule initLog_null)
next
  show "\<exists>s'. initLog dest s = Inr (initialized s', s')"
  proof (cases "dest \<noteq> None \<and> initialized s = 0")
    case True
    then obtain g where "dest = Some g" by auto
    with True show ?thesis by (simp add: initLog_first)
  next
    case False
    then have "initLog dest s = Inr (initialized s, s)"
      by (auto simp add: initLog_null initLog_again)
    then show ?thesis by blast
  qed
qed

theorem initLog_reports_initialized_witness:
  "initialized (initial_state None) = 0
   \<and> (\<exists>s'. initLog (Some 1) (initial_state None) = Inr (1, s') \<and> logOutput s' = Some 1
          \<and> initialized s' = 1)
   \<and> initialized (started_state 1 None) = 1
   \<and> initLog (Some 2) (started_state 1 None) = Inr (1, started_state 1 None)"
  using initLog_reports_initialized [of "initial_state None" 1 "Some 1"]
    initLog_reports_initialized [of "started_state 1 None" 2 "Some 2"]
  by (simp add: initial_state_def started_state_def)

text \<open>
  Claim C7: immediately after a successful initialization the table holds no
  handler in the VERBOSE slot and the respective default handler in each of
  the INFO, WARNING, ERROR and FATAL slots.
\<close>

theorem initLog_installs_defaults:
  assumes "initialized s = 0"
  shows "\<exists>s'. initLog (Some f) s = Inr (1, s')
           \<and> logHandlers s' VERBOSE_IDX = None
           \<and> logHandlers s' INFO_IDX = Some DefaultInfoHandler
           \<and> logHandlers s' WARNING_IDX = Some DefaultWarningHandler
           \<and> logHandlers s' ERROR_IDX = Some DefaultErrorHandler
           \<and> logHandlers s' FATAL_IDX = Some DefaultFatalHandler"
  using assms by (simp add: initLog_first)

theorem initLog_installs_defaults_witness:
  "initialized (initial_state None) = 0
   \<and> (\<exists>s'. initLog (Some 1) (initial_state None) = Inr (1, s')
           \<and> logHandlers s' VERBOSE_IDX = None
           \<and> logHandlers s' INFO_IDX = Some DefaultInfoHandler
           \<and> logHandlers s' WARNING_IDX = Some DefaultWarningHandler
           \<and> logHandlers s' ERROR_IDX = Some DefaultErrorHandler
           \<and> logHandlers s' FATAL_IDX = Some DefaultFatalHandler)"
  using initLog_installs_defaults [of "initial_state None" 1]
  by (simp add: initial_state_def)

section \<open>logger\<close>

text \<open>
  The test of the loop is \<open>strcmp(...) || strcmp(...)\<close>, without the negations
  that \<open>setHandler\<close> has: it holds as soon as the name differs from one of the
  two spellings, and no name equals both. The loop therefore stops in its first
  round, at \<open>VERBOSE_IDX\<close>, whatever the name.
\<close>

lemma logger_loop_first:
  "logger_loop c msg 0 0 s =
     (case logHandlers s VERBOSE_IDX of
        None \<Rightarrow> Inr (1, s)
      | Some h \<Rightarrow> seq (call_handler h 1 msg s) (\<lambda>s'. Inr (1, s')))"
proof -
  have stop: "logger_loop c msg (Suc 0) 1 t = Inr (1, t)" for t
    by (simp add: logger_loop.simps [of c msg "Suc 0" 1 t])
  have "c \<noteq> ''VERBOSE'' \<or> c \<noteq> ''verbose''"
    by auto
  then have "truthy (lor (strcmp c (VALID_CATS ! 0 ! UPPER_INDEX))
                         (strcmp c (VALID_CATS ! 0 ! LOWER_INDEX)))"
    by (simp add: differs_from_one_spelling VALID_CATS_def)
  then show ?thesis
    by (simp add: logger_loop.simps [of c msg 0 0 s] stop seq_def split: option.split sum.split)
qed

lemma logger_is_verbose:
  assumes "truthy (initialized s)"
  shows "logger (Some c) msg s = verbose 1 msg s"
  using assms
  by (simp add: logger_def logger_loop_first verbose_def seq_def split: option.split sum.split)

text \<open>For comparison, \<open>info\<close> after \<open>initLog\<close> writes its line.\<close>

lemma info_after_initLog:
  "run [InitLog (Some 1), Info 1 (Some ''test'')] (initial_state None)
     = Inr ((started_state 1 None)
         \<lparr>written := [(1, [CHR 0x09, CHR 0x09] @ ''INFO:   '' @ [CHR 0x09, CHR 0x09]
                          @ ''test.'' @ [CHR 0x0A])],
          handler_calls := [(DefaultInfoHandler, 1, Some ''test'')]\<rparr>)"
  by (simp add: initLog_initial_state info_def started_state_def call_handler_def
      defaultInfoHandler_def logFormat_fits spec_terminal_punctuation_def fprintf_line_def
      fill_dateField_def pad_left_justified_def padding_spaces)

text \<open>
  Claim C1: for every valid category name (one of the five names in exact
  uppercase or exact lowercase spelling) and every message, if the subsystem is
  initialized then \<open>logger\<close> matches exactly that category and calls that
  category's handler (when one is installed) with condition true and the given
  message; it never calls the handler of a different category.

  The code does not: after \<open>initLog\<close>, \<open>logger("INFO", "test")\<close> calls no handler
  and writes nothing, although the INFO slot holds its default handler; and
  with a handler installed for VERBOSE, that handler is the one called.
\<close>

theorem logger_ignores_category_name:
  "run [InitLog (Some 1), Logger (Some ''INFO'') (Some ''test'')] (initial_state None)
     = Inr (started_state 1 None)
   \<and> logHandlers (started_state 1 None) INFO_IDX = Some DefaultInfoHandler
   \<and> run [InitLog (Some 1), SetHandler (Some ''VERBOSE'') (Some (UserHandler 7)),
          Logger (Some ''INFO'') (Some ''test'')] (initial_state None)
     = Inr ((started_state 1 None)
         \<lparr>logHandlers := (logHandlers (started_state 1 None))
                            (VERBOSE_IDX := Some (UserHandler 7)),
          handler_calls := [(UserHandler 7, 1, Some ''test'')]\<rparr>)"
  by (simp add: initLog_initial_state logger_is_verbose verbose_def started_state_def
      setHandler_matched spec_category_of_def call_handler_def)

text \<open>
  Claim C2: for every non-null category name that matches none of the five
  categories in either spelling (for example \<open>DEBUG\<close>), if the subsystem is
  initialized then \<open>logger\<close> calls no category handler with the original message
  and instead emits exactly one WARNING with the text
  \<open>Invalid category provided. Message is not logged.\<close> (and emits nothing at all if
  the WARNING category is disabled).

  The code does not: after \<open>initLog\<close>, \<open>logger("DEBUG", "x")\<close> emits no WARNING,
  although the WARNING slot holds its default handler; and with the default
  handler installed for VERBOSE, the original message is written as a VERBOSE
  line.
\<close>

theorem logger_accepts_invalid_category:
  "run [InitLog (Some 1), Logger (Some ''DEBUG'') (Some ''x'')] (initial_state None)
     = Inr (started_state 1 None)
   \<and> logHandlers (started_state 1 None) WARNING_IDX = Some DefaultWarningHandler
   \<and> run [InitLog (Some 1), SetHandler (Some ''VERBOSE'') (Some DefaultVerboseHandler),
          Logger (Some ''DEBUG'') (Some ''x'')] (initial_state None)
     = Inr ((started_state 1 None)
         \<lparr>logHandlers := (logHandlers (started_state 1 None))
                            (VERBOSE_IDX := Some DefaultVerboseHandler),
          written := [(1, [CHR 0x09, CHR 0x09] @ ''VERBOSE:'' @ [CHR 0x09, CHR 0x09]
                           @ ''x.'' @ [CHR 0x0A])],
          handler_calls := [(DefaultVerboseHandler, 1, Some ''x'')]\<rparr>)"
  by (simp add: initLog_initial_state logger_is_verbose verbose_def started_state_def
      setHandler_matched spec_category_of_def call_handler_def defaultVerboseHandler_def
      logFormat_fits spec_terminal_punctuation_def fprintf_line_def fill_dateField_def
      pad_left_justified_def padding_spaces)

section \<open>The table is empty until the subsystem is initialized\<close>

subsection \<open>What one call can change\<close>

lemma initLog_step:
  assumes "initLog dest s = Inr (r, s')"
  shows "s' = s \<or> truthy (initialized s')"
proof (cases "dest \<noteq> None \<and> initialized s = 0")
  case True
  then obtain f where "dest = Some f" by auto
  with True assms show ?thesis by (auto simp add: initLog_first)
next
  case False
  then have "initLog dest s = Inr (initialized s, s)"
    by (auto simp add: initLog_null initLog_again)
  with assms show ?thesis by simp
qed

lemma logger_step:
  assumes "logger cat msg s = Inr s'"
  shows "same_globals s s'"
proof (cases "truthy (initialized s)")
  case False
  with assms show ?thesis by (simp add: logger_def same_globals_refl)
next
  case True
  show ?thesis
  proof (cases cat)
    case None
    with True assms
    have "warning 1 (Some ''Invalid category provided. Message is not logged.'') s = Inr s'"
      by (simp add: logger_def)
    then show ?thesis by (rule emit_globals)
  next
    case (Some c)
    with True assms have "verbose 1 msg s = Inr s'"
      by (simp add: logger_is_verbose)
    then show ?thesis by (rule emit_globals)
  qed
qed

lemma setHandler_step:
  assumes "setHandler cat h s = Inr (r, s')"
  shows "same_globals s s' \<or> (truthy (initialized s) \<and> initialized s' = initialized s)"
proof (cases "\<exists>c index. cat = Some c \<and> truthy (initialized s) \<and> spec_category_of c = Some index")
  case True
  then obtain c index
    where "cat = Some c" "truthy (initialized s)" "spec_category_of c = Some index"
    by blast
  with assms show ?thesis by (auto simp add: setHandler_matched)
next
  case False
  have "setHandler cat h s =
           seq (warning 1 (Some ''Invalid category provided. Handler is not set.'') s)
             (\<lambda>s'. Inr (0, s'))"
  proof (cases cat)
    case None
    then show ?thesis by (simp add: setHandler_null_name)
  next
    case (Some c)
    with False have "\<not> (truthy (initialized s) \<and> spec_category_of c \<noteq> None)" by auto
    with Some show ?thesis by (simp add: setHandler_unmatched)
  qed
  with assms have "warning 1 (Some ''Invalid category provided. Handler is not set.'') s = Inr s'"
    by (auto simp add: seq_eq_Inr)
  then have "same_globals s s'" by (rule emit_globals)
  then show ?thesis ..
qed

lemma exec_step:
  assumes "exec op s = Inr s'"
  shows "same_globals s s' \<or> truthy (initialized s')"
proof (cases op)
  case (InitLog dest)
  with assms obtain r where "initLog dest s = Inr (r, s')"
    by (auto simp add: seq_eq_Inr)
  then show ?thesis using initLog_step same_globals_refl by blast
next
  case (Logger cat msg)
  with assms show ?thesis by (simp add: logger_step)
next
  case (SetHandler cat h)
  with assms obtain r where "setHandler cat h s = Inr (r, s')"
    by (auto simp add: seq_eq_Inr)
  then show ?thesis using setHandler_step by fastforce
qed (use assms in \<open>auto dest: emit_globals\<close>)

subsection \<open>The invariant\<close>

lemma initial_state_invariant: "handlers_null_until_initialized (initial_state c)"
  by (simp add: handlers_null_until_initialized_def initial_state_def list_all_iff)

lemma exec_invariant:
  assumes "handlers_null_until_initialized s" and "exec op s = Inr s'"
  shows "handlers_null_until_initialized s'"
  using exec_step [OF assms(2)] assms(1)
  by (auto simp add: handlers_null_until_initialized_def same_globals_def)

lemma run_invariant:
  assumes "handlers_null_until_initialized s" and "run ops s = Inr s'"
  shows "handlers_null_until_initialized s'"
  using assms
proof (induction ops arbitrary: s)
  case Nil
  then show ?case by simp
next
  case (Cons op ops)
  from Cons.prems(2) obtain t where t: "exec op s = Inr t" and rest: "run ops t = Inr s'"
    by (auto simp add: seq_eq_Inr)
  from Cons.prems(1) t have "handlers_null_until_initialized t"
    by (rule exec_invariant)
  then show ?case using rest by (rule Cons.IH)
qed

lemma slots_null:
  assumes "handlers_null_until_initialized s" and "\<not> truthy (initialized s)"
  shows "logHandlers s VERBOSE_IDX = None" and "logHandlers s INFO_IDX = None"
    and "logHandlers s WARNING_IDX = None" and "logHandlers s ERROR_IDX = None"
    and "logHandlers s FATAL_IDX = None"
  using assms by (simp_all add: handlers_null_until_initialized_def list_all_iff)

subsection \<open>Before the first successful initialization nothing happens\<close>

lemma exec_before_init:
  assumes "handlers_null_until_initialized s" and "\<not> truthy (initialized s)"
  shows "exec op s = Inr s
    \<or> (\<exists>f s'. op = InitLog (Some f) \<and> exec op s = Inr s' \<and> truthy (initialized s'))"
proof (cases op)
  case (InitLog dest)
  show ?thesis
  proof (cases dest)
    case None
    with InitLog show ?thesis by (simp add: initLog_null)
  next
    case (Some f)
    from assms(2) have "initialized s = 0" by (simp add: truthy_def)
    with InitLog Some show ?thesis by (simp add: initLog_first)
  qed
next
  case (Logger cat msg)
  with assms(2) show ?thesis by (simp add: logger_def)
next
  case (SetHandler cat h)
  have "warning 1 (Some ''Invalid category provided. Handler is not set.'') s = Inr s"
    using slots_null(3) [OF assms] by (simp add: warning_def)
  with SetHandler assms(2) show ?thesis
    by (cases cat) (simp_all add: setHandler_def)
qed (use slots_null [OF assms] in \<open>simp_all add: emit_through_slot\<close>)

lemma exec_flag_stays:
  assumes "exec op s = Inr s'" and "truthy (initialized s)"
  shows "truthy (initialized s')"
  using exec_step [OF assms(1)] assms(2) by (auto simp add: same_globals_def)

lemma run_flag_stays:
  assumes "run ops s = Inr s'" and "truthy (initialized s)"
  shows "truthy (initialized s')"
  using assms
proof (induction ops arbitrary: s)
  case Nil
  then show ?case by simp
next
  case (Cons op ops)
  from Cons.prems(1) obtain t where t: "exec op s = Inr t" and rest: "run ops t = Inr s'"
    by (auto simp add: seq_eq_Inr)
  from t Cons.prems(2) have "truthy (initialized t)" by (rule exec_flag_stays)
  with rest show ?case by (rule Cons.IH)
qed

lemma run_before_init:
  assumes "handlers_null_until_initialized s" and "run ops s = Inr s'"
    and "\<not> truthy (initialized s')"
  shows "s' = s"
  using assms
proof (induction ops arbitrary: s)
  case Nil
  then show ?case by simp
next
  case (Cons op ops)
  from Cons.prems(2) obtain t where t: "exec op s = Inr t" and rest: "run ops t = Inr s'"
    by (auto simp add: seq_eq_Inr)
  have off: "\<not> truthy (initialized s)"
    using Cons.prems(2,3) run_flag_stays by blast
  have "\<not> truthy (initialized t)"
    using rest Cons.prems(3) run_flag_stays by blast
  with exec_before_init [OF Cons.prems(1) off, of op] t have "t = s" by auto
  with Cons.IH [OF Cons.prems(1) _ Cons.prems(3)] rest show ?case by simp
qed

text \<open>
  Claim C10: every operation (\<open>initLog\<close>, \<open>logger\<close>, \<open>setHandler\<close>, the five emit
  functions) keeps the invariant that every slot of the table is null whenever
  the initialized flag is false; so before any successful initialization all
  emit functions, the five that skip the test of the flag included, produce no
  output.

  The invariant holds at program start, every call that returns keeps it, and
  so does every sequence of calls; in a state where it holds and the flag is
  false, \<open>logger\<close> and the five emit functions return with the state unchanged;
  and a program whose calls leave the flag false has changed nothing and
  written nothing.
\<close>

theorem handlers_null_until_initialized_kept:
  "handlers_null_until_initialized (initial_state c)
   \<and> (handlers_null_until_initialized s \<and> exec op s = Inr s' \<longrightarrow>
        handlers_null_until_initialized s')
   \<and> (run ops (initial_state c) = Inr s' \<longrightarrow> handlers_null_until_initialized s')
   \<and> (handlers_null_until_initialized s \<and> \<not> truthy (initialized s) \<longrightarrow>
        logger cat msg s = Inr s \<and> verbose cond msg s = Inr s \<and> info cond msg s = Inr s
        \<and> warning cond msg s = Inr s \<and> error cond msg s = Inr s \<and> fatal cond msg s = Inr s)
   \<and> (run ops (initial_state c) = Inr s' \<and> \<not> truthy (initialized s') \<longrightarrow>
        s' = initial_state c \<and> written s' = [])"
proof (intro conjI impI)
  show "handlers_null_until_initialized (initial_state c)"
    by (rule initial_state_invariant)
next
  assume "handlers_null_until_initialized s \<and> exec op s = Inr s'"
  then show "handlers_null_until_initialized s'"
    using exec_invariant by blast
next
  assume "run ops (initial_state c) = Inr s'"
  with initial_state_invariant show "handlers_null_until_initialized s'"
    by (rule run_invariant)
next
  assume off: "handlers_null_until_initialized s \<and> \<not> truthy (initialized s)"
  then have slots: "logHandlers s VERBOSE_IDX = None" "logHandlers s INFO_IDX = None"
    "logHandlers s WARNING_IDX = None" "logHandlers s ERROR_IDX = None"
    "logHandlers s FATAL_IDX = None"
    using slots_null by blast+
  from off show "logger cat msg s = Inr s" by (simp add: logger_def)
  from slots show "verbose cond msg s = Inr s" by (simp add: emit_through_slot)
  from slots show "info cond msg s = Inr s" by (simp add: emit_through_slot)
  from slots show "warning cond msg s = Inr s" by (simp add: emit_through_slot)
  from slots show "error cond msg s = Inr s" by (simp add: emit_through_slot)
  from slots show "fatal cond msg s = Inr s" by (simp add: emit_through_slot)
next
  assume "run ops (initial_state c) = Inr s' \<and> \<not> truthy (initialized s')"
  then have "s' = initial_state c"
    using run_before_init initial_state_invariant by blast
  then show "s' = initial_state c" and "written s' = []"
    by (simp_all add: initial_state_def)
qed

theorem handlers_null_until_initialized_kept_witness:
  "handlers_null_until_initialized (initial_state None)
   \<and> \<not> truthy (initialized (initial_state None))
   \<and> exec (SetHandler (Some ''INFO'') (Some (UserHandler 3))) (initial_state None)
        = Inr (initial_state None)
   \<and> run [SetHandler (Some ''INFO'') (Some (UserHandler 3)), Info 1 (Some ''Hello'')]
        (initial_state None) = Inr (initial_state None)
   \<and> info 1 (Some ''Hello'') (initial_state None) = Inr (initial_state None)
   \<and> written (initial_state None) = []"
  using handlers_null_until_initialized_kept [where c = None and s = "initial_state None"
      and op = "SetHandler (Some ''INFO'') (Some (UserHandler 3))" and s' = "initial_state None"
      and ops = "[SetHandler (Some ''INFO'') (Some (UserHandler 3)), Info 1 (Some ''Hello'')]"
      and cat = "Some ''INFO''" and msg = "Some ''Hello''" and cond = 1]
  by (simp add: initial_state_def truthy_def setHandler_def warning_def info_def)

end
